theory Spec2Isabelle
  imports Complex_Main "HOL-Library.Multiset" "HOL-Library.Log_Nat"
begin

section \<open>Numbers\<close>

text \<open>
  A JavaScript number is an IEEE 754 double. A finite double is modelled by the real
  number it denotes, and an arithmetic operation of the source by the exact operation
  followed by \<open>round_double\<close>, the rounding of a real to the nearest double: 53 bits
  of significand, ties to the even significand, and below \<open>2 powi (- 1022)\<close> the fixed
  spacing \<open>2 powi (- 1074)\<close> of the subnormal numbers. Comparison, negation and
  \<open>Math.abs\<close> are exact on doubles. \<open>NaN\<close> and the overflow to \<open>Infinity\<close> (a result
  of \<open>2 ^ 1024\<close> or more) are outside the model, as is the sign of zero. The numbers
  that a stored record or a form holds are doubles.
\<close>

text \<open>Rounding of a real to the nearest integer, ties to the even one.\<close>

definition round_even :: "real \<Rightarrow> int" where
  "round_even m =
     (let f = \<lfloor>m\<rfloor>; r = m - of_int f
      in if r < 1/2 then f else if r > 1/2 then f + 1 else if even f then f else f + 1)"

text \<open>The binary exponent of a nonzero real: \<open>2 powi expo x \<le> \<bar>x\<bar> < 2 powi (expo x + 1)\<close>.\<close>

definition expo :: "real \<Rightarrow> int" where
  "expo x = (if 1 \<le> \<bar>x\<bar> then bitlen \<lfloor>\<bar>x\<bar>\<rfloor> - 1 else - bitlen (\<lceil>1 / \<bar>x\<bar>\<rceil> - 1))"

text \<open>The exponent of the spacing of the doubles around \<open>x\<close>.\<close>

definition ulp_exp :: "real \<Rightarrow> int" where
  "ulp_exp x = max (expo x - 52) (- 1074)"

definition round_double :: "real \<Rightarrow> real" where
  "round_double x =
     (if x = 0 then 0
      else of_int (round_even (x / 2 powi ulp_exp x)) * 2 powi ulp_exp x)"

text \<open>\<open>x + y\<close>, \<open>x - y\<close> and \<open>x * y\<close> of the source.\<close>

definition dadd :: "real \<Rightarrow> real \<Rightarrow> real" where
  "dadd x y = round_double (x + y)"



text \<open>A list of numbers on which double addition is exact in every order: integers
  whose absolute values add up to at most \<open>2 ^ 53\<close>.\<close>

definition exact_integers :: "real list \<Rightarrow> bool" where
  "exact_integers xs \<longleftrightarrow> list_all (\<lambda>a. of_int \<lfloor>a\<rfloor> = a) xs \<and> sum_list (map abs xs) \<le> 2 ^ 53"

section \<open>Data types\<close>

text \<open>
  The seven interfaces of the source, joined in the union type \<open>Entity\<close>. The type
  parameter is the type of the \<open>id\<close> field: a stored record has \<open>id: string\<close>
  (\<open>string Entity\<close>), the argument of \<open>save\<close> has \<open>id?: string\<close>
  (\<open>string option Entity\<close>, \<open>None\<close> for \<open>undefined\<close>).

  Amounts, prices and stock quantities are numbers, as above.
\<close>

datatype 'i Entity =
    Client 'i string string
      \<comment> \<open>id, name, phone\<close>
  | Transaction 'i string string real string
      \<comment> \<open>id, clientId, date, amount, description\<close>
  | Sale 'i string real string
      \<comment> \<open>id, date, amount, description\<close>
  | Expense 'i string real string string "string option"
      \<comment> \<open>id, date, amount, category, description, creditorId?\<close>
  | Product 'i string string real real
      \<comment> \<open>id, name, description, price, quantity\<close>
  | Creditor 'i string string
      \<comment> \<open>id, name, phone\<close>
  | CreditorTransaction 'i string string real string
      \<comment> \<open>id, creditorId, date, amount, description\<close>

text \<open>Property reads. A property that the record does not have reads as \<open>undefined\<close>,
  which is \<open>None\<close> for the two properties that the store compares with \<open>===\<close>.\<close>

fun id_of :: "'i Entity \<Rightarrow> 'i" where
  "id_of (Client i _ _) = i"
| "id_of (Transaction i _ _ _ _) = i"
| "id_of (Sale i _ _ _) = i"
| "id_of (Expense i _ _ _ _ _) = i"
| "id_of (Product i _ _ _ _) = i"
| "id_of (Creditor i _ _) = i"
| "id_of (CreditorTransaction i _ _ _ _) = i"

fun clientId_of :: "'i Entity \<Rightarrow> string option" where
  "clientId_of (Transaction _ c _ _ _) = Some c"
| "clientId_of _ = None"

fun creditorId_of :: "'i Entity \<Rightarrow> string option" where
  "creditorId_of (CreditorTransaction _ c _ _ _) = Some c"
| "creditorId_of (Expense _ _ _ _ _ c) = c"
| "creditorId_of _ = None"

text \<open>\<open>amount_of\<close> is the read of \<open>t.amount\<close> in a sum. It is given for the records
  that have an amount; the store only sums records that passed a filter on
  \<open>clientId\<close>, which are transactions.\<close>

fun amount_of :: "'i Entity \<Rightarrow> real" where
  "amount_of (Transaction _ _ _ a _) = a"
| "amount_of (Sale _ _ a _) = a"
| "amount_of (Expense _ _ a _ _ _) = a"
| "amount_of (CreditorTransaction _ _ _ a _) = a"

text \<open>\<open>item.id = ...\<close> and the cast \<open>item as T\<close>.\<close>

definition with_id :: "'j \<Rightarrow> 'i Entity \<Rightarrow> 'j Entity" where
  "with_id j item = map_Entity (\<lambda>_. j) item"

definition as_stored :: "string option Entity \<Rightarrow> string Entity" where
  "as_stored item = map_Entity (\<lambda>i. case i of Some s \<Rightarrow> s | None \<Rightarrow> []) item"

definition as_item :: "string Entity \<Rightarrow> string option Entity" where
  "as_item e = map_Entity Some e"

text \<open>Truthiness of an optional string: \<open>undefined\<close> and the empty string are falsy.\<close>

fun truthy :: "string option \<Rightarrow> bool" where
  "truthy None = False"
| "truthy (Some s) = (s \<noteq> [])"

section \<open>The store\<close>

text \<open>
  \<open>localStorage\<close> maps a key to the JSON text of an array of records. At run time the
  key is any string (\<open>EntityType\<close> exists only for the type checker, and
  \<open>handleDeleteClick\<close> passes on a \<open>data-type\<close> attribute unchecked). A key that is
  absent reads as the empty array.
\<close>

type_synonym Store = "string \<rightharpoonup> string Entity list"

definition entityTypes :: "string list" where
  "entityTypes = [''clients'', ''transactions'', ''sales'', ''expenses'', ''products'',
                  ''creditors'', ''creditorTransactions'']"

definition store_get :: "string \<Rightarrow> Store \<Rightarrow> string Entity list" where
  "store_get type st = (case st type of Some data \<Rightarrow> data | None \<Rightarrow> [])"

definition store_set :: "string \<Rightarrow> string Entity list \<Rightarrow> Store \<Rightarrow> Store" where
  "store_set type data st = st(type \<mapsto> data)"

text \<open>\<open>Array.prototype.findIndex\<close>: the first index whose element satisfies the
  predicate, \<open>None\<close> for \<open>-1\<close>.\<close>

fun findIndex :: "('a \<Rightarrow> bool) \<Rightarrow> 'a list \<Rightarrow> nat option" where
  "findIndex p [] = None"
| "findIndex p (x # xs) =
     (if p x then Some 0 else (case findIndex p xs of None \<Rightarrow> None | Some n \<Rightarrow> Some (Suc n)))"

text \<open>
  \<open>generateId\<close>: \<open>Date.now().toString(36) + Math.random().toString(36).substring(2)\<close>.
  \<open>now\<close> is the clock in milliseconds (never negative) and \<open>rnd\<close> the text that
  \<open>Math.random().toString(36).substring(2)\<close> yields, the base 36 digits of the random
  fraction.
\<close>

definition digit36 :: "nat \<Rightarrow> char" where
  "digit36 d = ''0123456789abcdefghijklmnopqrstuvwxyz'' ! d"

function toString36 :: "int \<Rightarrow> string" where
  "toString36 n =
     (if n < 36 then [digit36 (nat n)]
      else toString36 (n div 36) @ [digit36 (nat (n mod 36))])"
  by pat_completeness auto
termination
  by (relation "measure nat") auto

definition generateId :: "int \<Rightarrow> string \<Rightarrow> string" where
  "generateId now rnd = toString36 now @ rnd"

text \<open>
  \<open>save\<close>. The string \<open>newId\<close> is what \<open>generateId()\<close> returns at this call; it is
  used in the create branch only. The result is the new store and the returned record.
\<close>

definition save :: "string \<Rightarrow> string option Entity \<Rightarrow> string \<Rightarrow> Store \<Rightarrow> Store \<times> string Entity" where
  "save type item newId st =
     (let items = store_get type st in
      if truthy (id_of item) then
        (let it = as_stored item in
         case findIndex (\<lambda>i. id_of i = id_of it) items of
           Some index \<Rightarrow> (store_set type (items[index := it]) st, it)
         | None \<Rightarrow> (store_set type items st, it))
      else
        (let it = with_id newId item in
         (store_set type (items @ [it]) st, it)))"

definition delete :: "string \<Rightarrow> string \<Rightarrow> Store \<Rightarrow> Store" where
  "delete type eid st =
     (let st1 = store_set type (filter (\<lambda>item. id_of item \<noteq> eid) (store_get type st)) st;
          st2 = (if type = ''clients''
                 then store_set ''transactions''
                        (filter (\<lambda>t. clientId_of t \<noteq> Some eid) (store_get ''transactions'' st1)) st1
                 else st1)
      in if type = ''creditors''
         then store_set ''creditorTransactions''
                (filter (\<lambda>t. creditorId_of t \<noteq> Some eid) (store_get ''creditorTransactions'' st2)) st2
         else st2)"

definition getClients :: "Store \<Rightarrow> string Entity list" where
  "getClients st = store_get ''clients'' st"

definition getTransactionsForClient :: "string \<Rightarrow> Store \<Rightarrow> string Entity list" where
  "getTransactionsForClient clientId st =
     filter (\<lambda>t. clientId_of t = Some clientId) (store_get ''transactions'' st)"



definition getCreditors :: "Store \<Rightarrow> string Entity list" where
  "getCreditors st = store_get ''creditors'' st"

definition getTransactionsForCreditor :: "string \<Rightarrow> Store \<Rightarrow> string Entity list" where
  "getTransactionsForCreditor creditorId st =
     filter (\<lambda>t. creditorId_of t = Some creditorId) (store_get ''creditorTransactions'' st)"

definition getClientBalance :: "string \<Rightarrow> Store \<Rightarrow> real" where
  "getClientBalance clientId st =
     (let transactions = getTransactionsForClient clientId st
      in foldl (\<lambda>sum t. dadd sum (amount_of t)) 0 transactions)"

definition getTotalClientDebt :: "Store \<Rightarrow> real" where
  "getTotalClientDebt st =
     (let clients = getClients st
      in foldl (\<lambda>totalDebt client.
                  (let balance = getClientBalance (id_of client) st
                   in if balance > 0 then dadd totalDebt balance else totalDebt))
               0 clients)"

text \<open>A run of upserts into one collection, each with the id that \<open>generateId()\<close>
  would return for it.\<close>

fun saveAll :: "string \<Rightarrow> (string option Entity \<times> string) list \<Rightarrow> Store \<Rightarrow> Store" where
  "saveAll type [] st = st"
| "saveAll type ((item, newId) # rest) st = saveAll type rest (fst (save type item newId st))"

section \<open>The form handlers that write two collections\<close>

text \<open>
  The fields a submit handler reads from its \<open>FormData\<close>. A text field is a string, the
  empty string also standing for a field that the form does not have (\<open>fd.get\<close> gives
  \<open>null\<close> there, which is falsy as well). \<open>fd_quantity\<close> is the result of
  \<open>parseInt\<close>, a double of integer value, \<open>None\<close> for \<open>NaN\<close>; \<open>fd_amount\<close> is the
  result of \<open>parseFloat\<close>, a double.
\<close>

record FormData =
  fd_id :: string
  fd_clientId :: string
  fd_productId :: string
  fd_creditorId :: string
  fd_quantity :: "real option"
  fd_amount :: real
  fd_category :: string
  fd_description :: string
  fd_date :: string

text \<open>\<open>s || undefined\<close>\<close>

definition or_undefined :: "string \<Rightarrow> string option" where
  "or_undefined s = (if s \<noteq> [] then Some s else None)"




text \<open>The submit handler of \<open>renderExpenseForm\<close>; \<open>newId1\<close> is for the expense,
  \<open>newId2\<close> for the creditor transaction.\<close>

definition expenseFormSubmit ::
    "string Entity option \<Rightarrow> FormData \<Rightarrow> string \<Rightarrow> string \<Rightarrow> Store \<Rightarrow> Store" where
  "expenseFormSubmit expense fd newId1 newId2 st =
     (let isEditing = (expense \<noteq> None);
          creditorId = fd_creditorId fd;
          amount = fd_amount fd;
          st1 = fst (save ''expenses''
                       (Expense (or_undefined (fd_id fd)) (fd_date fd) amount (fd_category fd)
                          (fd_description fd) (or_undefined creditorId))
                       newId1 st)
      in if creditorId \<noteq> [] \<and> \<not> isEditing then
           fst (save ''creditorTransactions''
                  (CreditorTransaction None creditorId (fd_date fd) (- \<bar>amount\<bar>)
                     (''Pago registrado desde gastos: '' @ fd_description fd))
                  newId2 st1)
         else st1)"



section \<open>Properties of rounding\<close>

lemma round_even_of_int [simp]: "round_even (of_int n) = n"
  by (simp add: round_even_def)

lemma round_even_mono: "a \<le> b \<Longrightarrow> round_even a \<le> round_even b"
proof -
  assume ab: "a \<le> b"
  have fl: "\<lfloor>a\<rfloor> \<le> \<lfloor>b\<rfloor>" using ab by (rule floor_mono)
  show ?thesis
  proof (cases "\<lfloor>a\<rfloor> = \<lfloor>b\<rfloor>")
    case True
    with ab show ?thesis unfolding round_even_def Let_def by auto
  next
    case False
    with fl have "\<lfloor>a\<rfloor> + 1 \<le> \<lfloor>b\<rfloor>" by simp
    moreover have "round_even a \<le> \<lfloor>a\<rfloor> + 1" unfolding round_even_def Let_def by auto
    moreover have "\<lfloor>b\<rfloor> \<le> round_even b" unfolding round_even_def Let_def by auto
    ultimately show ?thesis by linarith
  qed
qed

lemma round_even_minus: "round_even (- a) = - round_even a"
proof (cases "a \<in> \<int>")
  case True
  then obtain n where "a = of_int n" by (auto elim: Ints_cases)
  then show ?thesis by (simp flip: of_int_minus)
next
  case False
  then have "a \<noteq> of_int \<lfloor>a\<rfloor>" by (metis Ints_of_int)
  then have fl: "\<lfloor>- a\<rfloor> = - \<lfloor>a\<rfloor> - 1"
    by (simp add: floor_minus ceiling_altdef)
  show ?thesis
    unfolding round_even_def Let_def fl by (auto simp: algebra_simps)
qed


lemma pow2_less_iff: "(2::real) powi a < 2 powi b \<longleftrightarrow> a < b"
proof
  assume l: "(2::real) powi a < 2 powi b"
  show "a < b"
  proof (rule ccontr)
    assume "\<not> a < b"
    then have "b \<le> a" by simp
    then have "(2::real) powi b \<le> 2 powi a" by (intro power_int_increasing) simp_all
    with l show False by simp
  qed
next
  assume "a < b"
  then show "(2::real) powi a < 2 powi b" by (intro power_int_strict_increasing) simp_all
qed

lemma pow2_le_iff: "(2::real) powi a \<le> 2 powi b \<longleftrightarrow> a \<le> b"
  using pow2_less_iff[of b a] by (auto simp: not_less[symmetric])

lemma expo_bracket:
  assumes "x \<noteq> 0"
  shows "2 powi expo x \<le> \<bar>x\<bar>" and "\<bar>x\<bar> < 2 powi (expo x + 1)"
proof -
  have "2 powi expo x \<le> \<bar>x\<bar> \<and> \<bar>x\<bar> < 2 powi (expo x + 1)"
  proof (cases "1 \<le> \<bar>x\<bar>")
    case True
    define n where "n = \<lfloor>\<bar>x\<bar>\<rfloor>"
    have n: "0 < n" using True by (simp add: n_def)
    define b where "b = bitlen n"
    have b1: "1 \<le> b" using n by (simp add: b_def bitlen_alt_def)
    from bitlen_bounds[OF n] have lo: "2 ^ nat (b - 1) \<le> n" and hi: "n < 2 ^ nat b"
      by (simp_all add: b_def)
    have e: "expo x = b - 1" using True by (simp add: expo_def n_def b_def)
    have "real_of_int (2 ^ nat (b - 1)) \<le> real_of_int n" using lo by (simp only: of_int_le_iff)
    also have "\<dots> \<le> \<bar>x\<bar>" by (simp add: n_def)
    finally have 1: "2 powi (b - 1) \<le> \<bar>x\<bar>" using b1 by (simp add: power_int_def)
    have "n + 1 \<le> 2 ^ nat b" using hi by simp
    then have "real_of_int (n + 1) \<le> real_of_int (2 ^ nat b)" by (simp only: of_int_le_iff)
    moreover have "\<bar>x\<bar> < real_of_int (n + 1)" by (simp add: n_def)
    ultimately have 2: "\<bar>x\<bar> < 2 powi b" using b1 by (simp add: power_int_def)
    from 1 2 e show ?thesis by simp
  next
    case False
    define y where "y = 1 / \<bar>x\<bar>"
    have x0: "0 < \<bar>x\<bar>" using assms by simp
    have y1: "1 < y" using False x0 by (simp add: y_def)
    define m where "m = \<lceil>y\<rceil>"
    have m2: "2 \<le> m" using y1 unfolding m_def by linarith
    have my: "real_of_int (m - 1) < y" "y \<le> real_of_int m" unfolding m_def by linarith+
    define b where "b = bitlen (m - 1)"
    have m1: "0 < m - 1" using m2 by simp
    have b1: "1 \<le> b" using m1 by (simp add: b_def bitlen_alt_def)
    from bitlen_bounds[OF m1] have lo: "2 ^ nat (b - 1) \<le> m - 1" and hi: "m - 1 < 2 ^ nat b"
      by (simp_all add: b_def)
    have e: "expo x = - b" using False by (simp add: expo_def y_def m_def b_def)
    have "real_of_int (2 ^ nat (b - 1)) \<le> real_of_int (m - 1)" using lo by (simp only: of_int_le_iff)
    then have "2 ^ nat (b - 1) \<le> real_of_int (m - 1)" by simp
    with my(1) have "2 ^ nat (b - 1) < y" by linarith
    then have "\<bar>x\<bar> < 1 / 2 ^ nat (b - 1)"
      using x0 by (simp add: y_def field_simps)
    moreover have "(2::real) powi (- b + 1) = 1 / 2 ^ nat (b - 1)"
      using b1 by (simp add: power_int_def field_simps) 
    ultimately have 2: "\<bar>x\<bar> < 2 powi (- b + 1)" by simp
    have "m \<le> 2 ^ nat b" using hi by simp
    then have "real_of_int m \<le> real_of_int (2 ^ nat b)" by (simp only: of_int_le_iff)
    then have "real_of_int m \<le> 2 ^ nat b" by simp
    with my(2) have "y \<le> 2 ^ nat b" by linarith
    then have "1 / 2 ^ nat b \<le> \<bar>x\<bar>"
      using x0 by (simp add: y_def field_simps)
    moreover have "(2::real) powi (- b) = 1 / 2 ^ nat b"
      using b1 by (simp add: power_int_def field_simps)
    ultimately have 1: "2 powi (- b) \<le> \<bar>x\<bar>" by simp
    from 1 2 e show ?thesis by simp
  qed
  then show "2 powi expo x \<le> \<bar>x\<bar>" and "\<bar>x\<bar> < 2 powi (expo x + 1)" by simp_all
qed

lemma expo_minus [simp]: "expo (- x) = expo x"
  by (simp add: expo_def)

lemma ulp_exp_minus [simp]: "ulp_exp (- x) = ulp_exp x"
  by (simp add: ulp_exp_def)

lemma round_double_zero [simp]: "round_double 0 = 0"
  by (simp add: round_double_def)

lemma round_double_minus: "round_double (- x) = - round_double x"
  by (simp add: round_double_def round_even_minus)

lemma pow2_split: "(2::real) powi (a + b) = 2 powi a * 2 powi b"
  by (simp add: power_int_add)

lemma scaled_below:
  assumes "x \<noteq> 0"
  shows "\<bar>x\<bar> / 2 powi ulp_exp x < 2 ^ 53"
proof -
  have "expo x + 1 \<le> ulp_exp x + 53" by (simp add: ulp_exp_def)
  then have "(2::real) powi (expo x + 1) \<le> 2 powi (ulp_exp x + 53)" by (simp only: pow2_le_iff)
  with expo_bracket(2)[OF assms] have "\<bar>x\<bar> < 2 powi (ulp_exp x + 53)" by linarith
  also have "\<dots> = 2 powi ulp_exp x * 2 ^ 53" by (simp add: pow2_split)
  finally show ?thesis by (simp add: field_simps)
qed

lemma mantissa_bound:
  assumes "x \<noteq> 0"
  shows "\<bar>round_even (x / 2 powi ulp_exp x)\<bar> \<le> 2 ^ 53"
proof -
  let ?q = "x / 2 powi ulp_exp x"
  have a: "\<bar>?q\<bar> = \<bar>x\<bar> / 2 powi ulp_exp x" by (simp add: abs_divide)
  have "\<bar>?q\<bar> < 2 ^ 53" unfolding a by (rule scaled_below[OF assms])
  then have "?q \<le> 2 ^ 53" "- (2 ^ 53) \<le> ?q" by linarith+
  then have q: "?q \<le> of_int (2 ^ 53)" "of_int (- (2 ^ 53)) \<le> ?q" by simp_all
  have "round_even ?q \<le> round_even (of_int (2 ^ 53))"
    using q(1) by (rule round_even_mono)
  moreover have "round_even (of_int (- (2 ^ 53))) \<le> round_even ?q"
    using q(2) by (rule round_even_mono)
  ultimately show ?thesis by (simp only: round_even_of_int)
qed

lemma representable_strict:
  assumes "\<bar>m\<bar> < 2 ^ 53" and "- 1074 \<le> i"
  shows "round_double (of_int m * 2 powi i) = of_int m * 2 powi i"
proof (cases "m = 0")
  case True
  then show ?thesis by simp
next
  case False
  let ?y = "real_of_int m * 2 powi i"
  have y0: "?y \<noteq> 0" using False by simp
  have "\<bar>real_of_int m\<bar> < 2 ^ 53" using assms(1) by (metis of_int_abs of_int_less_numeral_power_cancel_iff)
  then have "\<bar>?y\<bar> < 2 ^ 53 * 2 powi i" by (simp add: abs_mult)
  also have "\<dots> = 2 powi (i + 53)" by (simp add: pow2_split)
  finally have "2 powi expo ?y < (2::real) powi (i + 53)" using expo_bracket(1)[OF y0] by linarith
  then have "expo ?y < i + 53" by (simp only: pow2_less_iff)
  with assms(2) have k: "ulp_exp ?y \<le> i" by (simp add: ulp_exp_def)
  define j where "j = nat (i - ulp_exp ?y)"
  have i: "i = ulp_exp ?y + int j" using k by (simp add: j_def)
  have "?y / 2 powi ulp_exp ?y = real_of_int m * 2 ^ j"
    by (subst (1) i) (simp add: pow2_split)
  also have "\<dots> = real_of_int (m * 2 ^ j)" by simp
  finally have "round_even (?y / 2 powi ulp_exp ?y) = m * 2 ^ j"
    by (simp only: round_even_of_int)
  then have "round_double ?y = real_of_int (m * 2 ^ j) * 2 powi ulp_exp ?y"
    using y0 by (simp only: round_double_def if_False)
  also have "\<dots> = real_of_int m * 2 powi (ulp_exp ?y + int j)"
    by (simp add: pow2_split)
  finally show ?thesis using i by simp
qed

lemma representable:
  assumes "\<bar>m\<bar> \<le> 2 ^ 53" and "- 1074 \<le> i"
  shows "round_double (of_int m * 2 powi i) = of_int m * 2 powi i"
proof (cases "\<bar>m\<bar> < 2 ^ 53")
  case True
  then show ?thesis using assms(2) by (rule representable_strict)
next
  case False
  with assms(1) have "\<bar>m\<bar> = 2 ^ 53" by simp
  then consider "m = 2 ^ 53" | "m = - (2 ^ 53)" by (auto simp: abs_if split: if_splits)
  then obtain h where h: "m = h * 2" "\<bar>h\<bar> < 2 ^ 53"
  proof cases
    case 1
    then have "m = 2 ^ 52 * 2" "\<bar>2 ^ 52 :: int\<bar> < 2 ^ 53" by simp_all
    then show ?thesis by (rule that)
  next
    case 2
    then have "m = (- (2 ^ 52)) * 2" "\<bar>- (2 ^ 52) :: int\<bar> < 2 ^ 53" by simp_all
    then show ?thesis by (rule that)
  qed
  have "real_of_int m * 2 powi i = real_of_int h * 2 powi (i + 1)"
    by (simp add: h(1) pow2_split)
  moreover have "round_double (real_of_int h * 2 powi (i + 1)) = real_of_int h * 2 powi (i + 1)"
    using h(2) assms(2) by (intro representable_strict) simp_all
  ultimately show ?thesis by simp
qed

lemma round_double_int:
  "\<bar>z\<bar> \<le> 2 ^ 53 \<Longrightarrow> round_double (of_int z) = of_int z"
  using representable[of z 0] by simp

lemma round_double_idem [simp]: "round_double (round_double x) = round_double x"
proof (cases "x = 0")
  case True
  then show ?thesis by simp
next
  case False
  have "- 1074 \<le> ulp_exp x" by (simp add: ulp_exp_def)
  with mantissa_bound[OF False]
  have "round_double (of_int (round_even (x / 2 powi ulp_exp x)) * 2 powi ulp_exp x)
          = of_int (round_even (x / 2 powi ulp_exp x)) * 2 powi ulp_exp x"
    by (rule representable)
  with False show ?thesis by (simp add: round_double_def)
qed


lemma round_double_nonneg: "0 \<le> x \<Longrightarrow> 0 \<le> round_double x"
proof (cases "x = 0")
  case True
  then show ?thesis by simp
next
  case False
  assume "0 \<le> x"
  then have "real_of_int 0 \<le> x / 2 powi ulp_exp x" by simp
  then have "round_even (real_of_int 0) \<le> round_even (x / 2 powi ulp_exp x)"
    by (rule round_even_mono)
  then have "0 \<le> round_even (x / 2 powi ulp_exp x)" by (simp only: round_even_of_int)
  with False show ?thesis by (simp add: round_double_def)
qed

lemma ulp_exp_mono:
  assumes "0 < x" and "x \<le> y"
  shows "ulp_exp x \<le> ulp_exp y"
proof -
  have x: "x \<noteq> 0" and y: "y \<noteq> 0" using assms by auto
  have "2 powi expo x \<le> \<bar>x\<bar>" by (rule expo_bracket(1)[OF x])
  also have "\<dots> \<le> \<bar>y\<bar>" using assms by simp
  also have "\<dots> < 2 powi (expo y + 1)" by (rule expo_bracket(2)[OF y])
  finally have "expo x < expo y + 1" by (simp only: pow2_less_iff)
  then show ?thesis by (simp add: ulp_exp_def)
qed

lemma round_double_mono_pos:
  assumes "0 < x" and "x \<le> y"
  shows "round_double x \<le> round_double y"
proof -
  have x: "x \<noteq> 0" and y: "y \<noteq> 0" and ypos: "0 < y" using assms by auto
  let ?i = "ulp_exp x" and ?j = "ulp_exp y"
  have ij: "?i \<le> ?j" using assms by (rule ulp_exp_mono)
  show ?thesis
  proof (cases "?i = ?j")
    case True
    have "x / 2 powi ?j \<le> y / 2 powi ?j" using assms(2) by (simp add: divide_right_mono)
    then have "round_even (x / 2 powi ?j) \<le> round_even (y / 2 powi ?j)" by (rule round_even_mono)
    then have "real_of_int (round_even (x / 2 powi ?j)) * 2 powi ?j
                 \<le> real_of_int (round_even (y / 2 powi ?j)) * 2 powi ?j"
      by (simp add: mult_right_mono)
    with x y True show ?thesis by (simp add: round_double_def)
  next
    case False
    with ij have lt: "?i + 1 \<le> ?j" by simp
    have "- 1074 \<le> ?i" by (simp add: ulp_exp_def)
    with lt have j: "?j = expo y - 52" by (simp add: ulp_exp_def max_def split: if_splits)
    have "(2::real) powi (?j + 52) \<le> \<bar>y\<bar>" using expo_bracket(1)[OF y] by (simp add: j)
    then have "2 powi ?j * 2 ^ 52 \<le> y" using ypos by (simp add: pow2_split)
    then have "real_of_int (2 ^ 52) \<le> y / 2 powi ?j" by (simp add: field_simps)
    then have "round_even (real_of_int (2 ^ 52)) \<le> round_even (y / 2 powi ?j)"
      by (rule round_even_mono)
    then have "2 ^ 52 \<le> round_even (y / 2 powi ?j)" by (simp only: round_even_of_int)
    then have "real_of_int (2 ^ 52) \<le> real_of_int (round_even (y / 2 powi ?j))"
      by (simp only: of_int_le_iff)
    then have "real_of_int (2 ^ 52) * 2 powi ?j \<le> real_of_int (round_even (y / 2 powi ?j)) * 2 powi ?j"
      by (simp add: mult_right_mono)
    then have hi: "2 powi (?j + 52) \<le> round_double y"
      using y by (simp add: round_double_def pow2_split mult.commute)
    have "\<bar>round_even (x / 2 powi ?i)\<bar> \<le> 2 ^ 53" by (rule mantissa_bound[OF x])
    then have "round_even (x / 2 powi ?i) \<le> 2 ^ 53" by simp
    then have "real_of_int (round_even (x / 2 powi ?i)) \<le> real_of_int (2 ^ 53)"
      by (simp only: of_int_le_iff)
    then have "real_of_int (round_even (x / 2 powi ?i)) * 2 powi ?i \<le> real_of_int (2 ^ 53) * 2 powi ?i"
      by (simp add: mult_right_mono)
    then have "round_double x \<le> 2 powi (?i + 53)"
      using x by (simp add: round_double_def pow2_split mult.commute)
    also have "\<dots> \<le> 2 powi (?j + 52)" using lt by (simp only: pow2_le_iff)
    finally show ?thesis using hi by linarith
  qed
qed

lemma round_double_mono: "x \<le> y \<Longrightarrow> round_double x \<le> round_double y"
proof -
  assume xy: "x \<le> y"
  consider "0 < x" | "x \<le> 0" "0 \<le> y" | "y < 0" by linarith
  then show ?thesis
  proof cases
    case 1
    then show ?thesis using xy by (rule round_double_mono_pos)
  next
    case 2
    have "0 \<le> round_double y" using 2(2) by (rule round_double_nonneg)
    moreover have "0 \<le> round_double (- x)" using 2(1) by (intro round_double_nonneg) simp
    ultimately show ?thesis by (simp add: round_double_minus)
  next
    case 3
    then have "0 < - y" "- y \<le> - x" using xy by simp_all
    then have "round_double (- y) \<le> round_double (- x)" by (rule round_double_mono_pos)
    then show ?thesis by (simp add: round_double_minus)
  qed
qed

section \<open>Properties of the store\<close>

lemma store_get_set [simp]:
  "store_get t (store_set t' d st) = (if t = t' then d else store_get t st)"
  by (simp add: store_get_def store_set_def)

lemma findIndex_None: "findIndex p xs = None \<longleftrightarrow> (\<forall>x\<in>set xs. \<not> p x)"
  by (induction xs) (auto split: option.splits)




lemma id_of_with_id [simp]: "id_of (with_id j e) = j"
  by (cases e) (simp_all add: with_id_def)

lemma clientId_of_with_id [simp]: "clientId_of (with_id j e) = clientId_of e"
  by (cases e) (simp_all add: with_id_def)

lemma amount_of_with_id: "clientId_of e = Some c \<Longrightarrow> amount_of (with_id j e) = amount_of e"
  by (cases e) (simp_all add: with_id_def)

lemma id_of_as_stored: "id_of item = Some i \<Longrightarrow> id_of (as_stored item) = i"
  by (cases item) (simp_all add: as_stored_def)

lemma clientId_of_as_stored [simp]: "clientId_of (as_stored e) = clientId_of e"
  by (cases e) (simp_all add: as_stored_def)

lemma save_create:
  "\<not> truthy (id_of item) \<Longrightarrow>
   save type item newId st =
     (store_set type (store_get type st @ [with_id newId item]) st, with_id newId item)"
  by (simp add: save_def Let_def)


lemma save_missing:
  "id_of item = Some i \<Longrightarrow> i \<noteq> [] \<Longrightarrow> findIndex (\<lambda>x. id_of x = i) (store_get type st) = None \<Longrightarrow>
   save type item newId st = (store_set type (store_get type st) st, as_stored item)"
  by (simp add: save_def Let_def id_of_as_stored)

lemma delete_clients:
  "delete ''clients'' i st = 
    store_set ''transactions'' (filter (\<lambda>t. clientId_of t \<noteq> Some i) (store_get ''transactions'' st))
      (store_set ''clients'' (filter (\<lambda>item. id_of item \<noteq> i) (store_get ''clients'' st)) st)"
  by (simp add: delete_def Let_def)

lemma delete_creditors:
  "delete ''creditors'' i st = 
    store_set ''creditorTransactions'' (filter (\<lambda>t. creditorId_of t \<noteq> Some i) (store_get ''creditorTransactions'' st))
      (store_set ''creditors'' (filter (\<lambda>item. id_of item \<noteq> i) (store_get ''creditors'' st)) st)"
  by (simp add: delete_def Let_def)

lemma transactions_after_create:
  "\<not> truthy (id_of item) \<Longrightarrow>
   store_get ''transactions'' (fst (save ''transactions'' item newId st)) =
     store_get ''transactions'' st @ [with_id newId item]"
  by (simp add: save_create)

lemma clients_after_transaction_save:
  "getClients (fst (save ''transactions'' item newId st)) = getClients st"
  by (simp add: save_def Let_def getClients_def split: option.splits)

lemma as_stored_as_item [simp]: "as_stored (as_item e) = e"
  by (cases e) (simp_all add: as_stored_def as_item_def)

lemma id_of_as_item [simp]: "id_of (as_item e) = Some (id_of e)"
  by (cases e) (simp_all add: as_item_def)



lemma abs_of_int_le: "\<bar>real_of_int z\<bar> \<le> 2 ^ 53 \<Longrightarrow> \<bar>z\<bar> \<le> 2 ^ 53"
proof -
  assume "\<bar>real_of_int z\<bar> \<le> 2 ^ 53"
  then have "real_of_int \<bar>z\<bar> \<le> real_of_int (2 ^ 53)" by simp
  then show ?thesis by (simp only: of_int_le_iff)
qed

lemma dadd_exact:
  assumes "of_int \<lfloor>a\<rfloor> = a" and "of_int \<lfloor>b\<rfloor> = b" and "\<bar>a + b\<bar> \<le> 2 ^ 53"
  shows "dadd a b = a + b"
proof -
  have s: "a + b = real_of_int (\<lfloor>a\<rfloor> + \<lfloor>b\<rfloor>)"
    by (simp only: of_int_add of_int_diff of_int_mult assms(1,2))
  with assms(3) have "\<bar>real_of_int (\<lfloor>a\<rfloor> + \<lfloor>b\<rfloor>)\<bar> \<le> 2 ^ 53" by simp
  then have "\<bar>\<lfloor>a\<rfloor> + \<lfloor>b\<rfloor>\<bar> \<le> 2 ^ 53" by (rule abs_of_int_le)
  then have "round_double (real_of_int (\<lfloor>a\<rfloor> + \<lfloor>b\<rfloor>)) = real_of_int (\<lfloor>a\<rfloor> + \<lfloor>b\<rfloor>)"
    by (rule round_double_int)
  with s show ?thesis by (simp only: dadd_def)
qed



lemma foldl_dadd_exact:
  assumes "of_int \<lfloor>a\<rfloor> = a" and "list_all (\<lambda>x. of_int \<lfloor>x\<rfloor> = x) xs"
    and "\<bar>a\<bar> + sum_list (map abs xs) \<le> 2 ^ 53"
  shows "foldl dadd a xs = a + sum_list xs"
  using assms
proof (induction xs arbitrary: a)
  case Nil
  then show ?case by simp
next
  case (Cons x xs)
  have x: "of_int \<lfloor>x\<rfloor> = x" and rest: "list_all (\<lambda>x. of_int \<lfloor>x\<rfloor> = x) xs"
    using Cons.prems(2) by simp_all
  have nn: "0 \<le> sum_list (map abs xs)" by (rule sum_list_nonneg) auto
  have b: "\<bar>a + x\<bar> \<le> 2 ^ 53" using Cons.prems(3) nn by simp
  have step: "dadd a x = a + x" using Cons.prems(1) x b by (rule dadd_exact)
  have i: "of_int \<lfloor>a + x\<rfloor> = a + x"
    using Cons.prems(1) x by (metis of_int_add of_int_floor_cancel Ints_add Ints_of_int)
  have "\<bar>a + x\<bar> + sum_list (map abs xs) \<le> 2 ^ 53" using Cons.prems(3) by simp
  from Cons.IH[OF i rest this] step show ?case by simp
qed

lemma exact_integers_mset:
  assumes "mset xs = mset ys"
  shows "exact_integers xs = exact_integers ys"
proof -
  have "set xs = set ys" using assms by (rule mset_eq_setD)
  moreover have "sum_list (map abs xs) = sum_list (map abs ys)"
  proof -
    have "mset (map abs xs) = mset (map abs ys)" using assms by (metis mset_map)
    then show ?thesis by (metis sum_mset_sum_list)
  qed
  ultimately show ?thesis by (simp add: exact_integers_def list_all_iff)
qed

lemma foldl_dadd_sum:
  "exact_integers xs \<Longrightarrow> foldl dadd 0 xs = sum_list xs"
  using foldl_dadd_exact[of 0 xs] by (simp add: exact_integers_def)

lemma foldl_dadd_mset:
  assumes "exact_integers xs" and "mset ys = mset xs"
  shows "foldl dadd 0 ys = foldl dadd 0 xs"
proof -
  have "exact_integers ys" using assms exact_integers_mset[of ys xs] by simp
  then have "foldl dadd 0 ys = sum_list ys" by (rule foldl_dadd_sum)
  also have "\<dots> = sum_list xs" using assms(2) by (metis sum_mset_sum_list)
  also have "\<dots> = foldl dadd 0 xs" using assms(1) by (simp add: foldl_dadd_sum)
  finally show ?thesis .
qed

lemma getClientBalance_fold:
  "getClientBalance c st = foldl dadd 0 (map amount_of (getTransactionsForClient c st))"
  by (simp add: getClientBalance_def foldl_map)

lemma foldl_dadd_double:
  "round_double a = a \<Longrightarrow> round_double (foldl dadd a xs) = foldl dadd a xs"
  by (induction xs arbitrary: a) (simp_all add: dadd_def)

lemma getClientBalance_double [simp]:
  "round_double (getClientBalance c st) = getClientBalance c st"
  by (simp add: getClientBalance_fold foldl_dadd_double)

lemma transactions_of_client_after_create:
  "\<not> truthy (id_of item) \<Longrightarrow>
   getTransactionsForClient c (fst (save ''transactions'' item newId st)) =
     getTransactionsForClient c st @ (if clientId_of item = Some c then [with_id newId item] else [])"
  by (simp add: getTransactionsForClient_def transactions_after_create)

lemma amounts_after_creates:
  "\<forall>u\<in>set ups. \<not> truthy (id_of (fst u)) \<Longrightarrow>
   map amount_of (getTransactionsForClient c (saveAll ''transactions'' ups st)) =
     map amount_of (getTransactionsForClient c st)
       @ map amount_of (filter (\<lambda>t. clientId_of t = Some c) (map fst ups))"
proof (induction ups arbitrary: st)
  case Nil
  then show ?case by simp
next
  case (Cons u ups)
  obtain item newId where u: "u = (item, newId)" by (cases u)
  from Cons.prems u have creating: "\<not> truthy (id_of item)" by simp
  from Cons.prems have rest: "\<forall>u\<in>set ups. \<not> truthy (id_of (fst u))" by simp
  show ?case
    using Cons.IH[OF rest, of "fst (save ''transactions'' item newId st)"]
    by (simp add: u transactions_of_client_after_create[OF creating] amount_of_with_id)
qed

lemma balance_after_add:
  "\<not> truthy i \<Longrightarrow>
   getClientBalance x (fst (save ''transactions'' (Transaction i c d a ds) newId st)) =
     (if x = c then dadd (getClientBalance x st) a else getClientBalance x st)"
  by (simp add: getClientBalance_fold transactions_of_client_after_create with_id_def)



lemma debt_mono:
  assumes "round_double a = a" and "round_double a' = a'" and "a \<le> a'"
    and "\<forall>k\<in>set cs. f k \<le> g k"
  shows "foldl (\<lambda>totalDebt client.
            (let balance = f client in if balance > 0 then dadd totalDebt balance else totalDebt)) a cs
       \<le> foldl (\<lambda>totalDebt client.
            (let balance = g client in if balance > 0 then dadd totalDebt balance else totalDebt)) a' cs"
  using assms
proof (induction cs arbitrary: a a')
  case Nil
  then show ?case by simp
next
  case (Cons k cs)
  let ?n = "if f k > 0 then dadd a (f k) else a"
  let ?n' = "if g k > 0 then dadd a' (g k) else a'"
  have fg: "f k \<le> g k" and rest: "\<forall>k\<in>set cs. f k \<le> g k" using Cons.prems(4) by simp_all
  have d: "round_double ?n = ?n" "round_double ?n' = ?n'"
    using Cons.prems(1,2) by (simp_all add: dadd_def)
  have le: "?n \<le> ?n'"
  proof (cases "f k > 0")
    case True
    with fg have "g k > 0" by simp
    moreover have "dadd a (f k) \<le> dadd a' (g k)"
      unfolding dadd_def using Cons.prems(3) fg by (intro round_double_mono) simp
    ultimately show ?thesis using True by simp
  next
    case False
    show ?thesis
    proof (cases "g k > 0")
      case True
      have "a' = round_double a'" using Cons.prems(2) by simp
      also have "\<dots> \<le> round_double (a' + g k)" using True by (intro round_double_mono) simp
      finally have "a' \<le> dadd a' (g k)" by (simp add: dadd_def)
      with Cons.prems(3) True False show ?thesis by simp
    next
      case g: False
      with False Cons.prems(3) show ?thesis by simp
    qed
  qed
  from Cons.IH[OF d le rest] show ?case by (simp add: Let_def)
qed

lemma debt_cong:
  assumes "\<forall>k\<in>set cs. max (f k) 0 = max (g k) (0::real)"
  shows "foldl (\<lambda>totalDebt client.
            (let balance = f client in if balance > 0 then dadd totalDebt balance else totalDebt)) a cs
       = foldl (\<lambda>totalDebt client.
            (let balance = g client in if balance > 0 then dadd totalDebt balance else totalDebt)) a cs"
  using assms
proof (induction cs arbitrary: a)
  case Nil
  then show ?case by simp
next
  case (Cons k cs)
  from Cons.prems have k: "max (f k) 0 = max (g k) 0" and rest: "\<forall>k\<in>set cs. max (f k) 0 = max (g k) 0"
    by simp_all
  from k have "(if f k > 0 then dadd a (f k) else a) = (if g k > 0 then dadd a (g k) else a)"
    by (auto simp: max_def split: if_splits)
  with Cons.IH[OF rest] show ?case by (simp add: Let_def)
qed


lemma toString36_nonempty: "toString36 n \<noteq> []"
  by (subst toString36.simps) simp

lemma generateId_nonempty [simp]: "generateId now rnd \<noteq> []"
  by (simp add: generateId_def toString36_nonempty)


section \<open>Evaluations\<close>

text \<open>Closed facts about rounding, evaluated with the code equations.\<close>

lemma big_sums:
  "dadd 0 10000000000000000 = 10000000000000000"
  "dadd 10000000000000000 1 = 10000000000000000"
  "dadd 10000000000000000 (- 10000000000000000) = 0"
  "dadd 0 1 = 1"
  by code_simp+

lemma small_sums:
  "dadd 0 50000 = 50000" "dadd 50000 (- 20000) = 30000"
  "dadd 0 (- 20000) = - 20000" "dadd (- 20000) 50000 = 30000"
  by code_simp+

lemma scenario_exact:
  "exact_integers [50000, - 20000]"
  by code_simp





section \<open>Client balances\<close>

text \<open>
  Claim C1, as the code has it. In every state, and so at every point of any run of
  upserts into the transactions whatever their order, \<open>getClientBalance\<close> is the sum
  of the amounts of the stored transactions of the client, added as doubles from left
  to right in stored order. Where these amounts are integers whose absolute values add
  up to at most \<open>2 ^ 53\<close>, it is their arithmetic sum, and it is the same in every
  store that holds the same amounts in another order. A run of upserts that create
  transactions adds their amounts, for the client, behind the stored ones, so under
  the same condition every order of the run gives the same balance.
\<close>

theorem balance_is_double_sum:
  "getClientBalance c (saveAll ''transactions'' ups st) =
     foldl dadd 0 (map amount_of (getTransactionsForClient c (saveAll ''transactions'' ups st)))
   \<and> (exact_integers (map amount_of (getTransactionsForClient c (saveAll ''transactions'' ups st))) \<longrightarrow>
        getClientBalance c (saveAll ''transactions'' ups st) =
          sum_list (map amount_of (getTransactionsForClient c (saveAll ''transactions'' ups st))))
   \<and> (exact_integers (map amount_of (getTransactionsForClient c st)) \<and>
        mset (map amount_of (getTransactionsForClient c st'))
          = mset (map amount_of (getTransactionsForClient c st)) \<longrightarrow>
        getClientBalance c st' = getClientBalance c st)
   \<and> ((\<forall>u\<in>set ups. \<not> truthy (id_of (fst u))) \<longrightarrow>
        map amount_of (getTransactionsForClient c (saveAll ''transactions'' ups st)) =
          map amount_of (getTransactionsForClient c st)
            @ map amount_of (filter (\<lambda>t. clientId_of t = Some c) (map fst ups)))
   \<and> ((\<forall>u\<in>set ups. \<not> truthy (id_of (fst u))) \<and> (\<forall>u\<in>set ups'. \<not> truthy (id_of (fst u)))
        \<and> mset (map fst ups') = mset (map fst ups)
        \<and> exact_integers (map amount_of (getTransactionsForClient c (saveAll ''transactions'' ups st))) \<longrightarrow>
        getClientBalance c (saveAll ''transactions'' ups' st) =
          getClientBalance c (saveAll ''transactions'' ups st))"
proof (intro conjI impI)
  show "getClientBalance c (saveAll ''transactions'' ups st) =
     foldl dadd 0 (map amount_of (getTransactionsForClient c (saveAll ''transactions'' ups st)))"
    by (rule getClientBalance_fold)
next
  assume "exact_integers (map amount_of (getTransactionsForClient c (saveAll ''transactions'' ups st)))"
  then show "getClientBalance c (saveAll ''transactions'' ups st) =
          sum_list (map amount_of (getTransactionsForClient c (saveAll ''transactions'' ups st)))"
    by (simp add: getClientBalance_fold foldl_dadd_sum)
next
  assume "exact_integers (map amount_of (getTransactionsForClient c st)) \<and>
        mset (map amount_of (getTransactionsForClient c st'))
          = mset (map amount_of (getTransactionsForClient c st))"
  then show "getClientBalance c st' = getClientBalance c st"
    unfolding getClientBalance_fold by (intro foldl_dadd_mset) simp_all
next
  assume "\<forall>u\<in>set ups. \<not> truthy (id_of (fst u))"
  then show "map amount_of (getTransactionsForClient c (saveAll ''transactions'' ups st)) =
          map amount_of (getTransactionsForClient c st)
            @ map amount_of (filter (\<lambda>t. clientId_of t = Some c) (map fst ups))"
    by (rule amounts_after_creates)
next
  assume a: "(\<forall>u\<in>set ups. \<not> truthy (id_of (fst u))) \<and> (\<forall>u\<in>set ups'. \<not> truthy (id_of (fst u)))
        \<and> mset (map fst ups') = mset (map fst ups)
        \<and> exact_integers (map amount_of (getTransactionsForClient c (saveAll ''transactions'' ups st)))"
  let ?new = "\<lambda>us. map amount_of (filter (\<lambda>t. clientId_of t = Some c) (map fst us))"
  from a have m: "mset (map fst ups') = mset (map fst ups)" by simp
  have "mset (filter (\<lambda>t. clientId_of t = Some c) (map fst ups'))
          = mset (filter (\<lambda>t. clientId_of t = Some c) (map fst ups))"
    by (simp only: mset_filter m)
  then have "mset (?new ups') = mset (?new ups)"
    by (simp only: mset_map)
  then have "mset (map amount_of (getTransactionsForClient c (saveAll ''transactions'' ups' st)))
           = mset (map amount_of (getTransactionsForClient c (saveAll ''transactions'' ups st)))"
    using a by (simp add: amounts_after_creates)
  with a show "getClientBalance c (saveAll ''transactions'' ups' st) =
          getClientBalance c (saveAll ''transactions'' ups st)"
    unfolding getClientBalance_fold by (intro foldl_dadd_mset) simp_all
qed

theorem balance_is_double_sum_witness:
  "\<not> truthy (id_of (Transaction None ''ana'' ''2024-01-01'' 50000 ''prestamo''))
   \<and> exact_integers [50000, - 20000]
   \<and> mset (map fst [(Transaction None ''ana'' ''2024-01-02'' (-20000) ''pago'', ''t3''),
                     (Transaction None ''ana'' ''2024-01-01'' 50000 ''prestamo'', ''t4'')])
     = mset (map fst [(Transaction None ''ana'' ''2024-01-01'' 50000 ''prestamo'', ''t1''),
                      (Transaction None ''ana'' ''2024-01-02'' (-20000) ''pago'', ''t2'')])
   \<and> getClientBalance ''ana''
        (saveAll ''transactions''
           [(Transaction None ''ana'' ''2024-01-01'' 50000 ''prestamo'', ''t1''),
            (Transaction None ''ana'' ''2024-01-02'' (-20000) ''pago'', ''t2'')] Map.empty) = 30000
   \<and> getClientBalance ''ana''
        (saveAll ''transactions''
           [(Transaction None ''ana'' ''2024-01-02'' (-20000) ''pago'', ''t3''),
            (Transaction None ''ana'' ''2024-01-01'' 50000 ''prestamo'', ''t4'')] Map.empty) = 30000"
  using balance_is_double_sum [of "''ana''"
     "[(Transaction None ''ana'' ''2024-01-01'' 50000 ''prestamo'', ''t1''),
       (Transaction None ''ana'' ''2024-01-02'' (-20000) ''pago'', ''t2'')]" Map.empty Map.empty
     "[(Transaction None ''ana'' ''2024-01-02'' (-20000) ''pago'', ''t3''),
       (Transaction None ''ana'' ''2024-01-01'' 50000 ''prestamo'', ''t4'')]"]
  by (simp add: getClientBalance_def getTransactionsForClient_def save_def Let_def store_get_def
        store_set_def with_id_def add_mset_commute scenario_exact small_sums)

text \<open>The claim as written fails where double addition rounds. The amounts \<open>10 ^ 16\<close>,
  \<open>1\<close> and \<open>- (10 ^ 16)\<close> have the arithmetic sum 1; created in this order they give
  the balance 0, and with the last two exchanged the balance 1.\<close>

theorem balance_depends_on_order:
  "getClientBalance ''c1''
     (saveAll ''transactions''
        [(Transaction None ''c1'' ''2024-01-01'' (10 ^ 16) ''a'', ''t1''),
         (Transaction None ''c1'' ''2024-01-02'' 1 ''b'', ''t2''),
         (Transaction None ''c1'' ''2024-01-03'' (- (10 ^ 16)) ''c'', ''t3'')] Map.empty) = 0
   \<and> getClientBalance ''c1''
     (saveAll ''transactions''
        [(Transaction None ''c1'' ''2024-01-01'' (10 ^ 16) ''a'', ''t1''),
         (Transaction None ''c1'' ''2024-01-03'' (- (10 ^ 16)) ''c'', ''t3''),
         (Transaction None ''c1'' ''2024-01-02'' 1 ''b'', ''t2'')] Map.empty) = 1
   \<and> sum_list [10 ^ 16, 1, - (10 ^ 16)] = (1::real)"
  by (simp add: getClientBalance_def getTransactionsForClient_def save_def Let_def store_get_def
        store_set_def with_id_def big_sums)

section \<open>Deleting a client or a creditor\<close>

text \<open>
  Claim C2. After \<open>delete('clients', id)\<close> no client of that id is in \<open>getClients()\<close>
  (the other clients stay, in their order) and \<open>getTransactionsForClient(id)\<close> is
  empty; after \<open>delete('creditors', id)\<close> the same holds of \<open>getCreditors()\<close> and
  \<open>getTransactionsForCreditor(id)\<close>. Parent and children are gone in the one store
  that \<open>delete\<close> returns.
\<close>

theorem delete_cascade:
  "getClients (delete ''clients'' i st) = filter (\<lambda>c. id_of c \<noteq> i) (getClients st)
   \<and> i \<notin> set (map id_of (getClients (delete ''clients'' i st)))
   \<and> getTransactionsForClient i (delete ''clients'' i st) = []
   \<and> getCreditors (delete ''creditors'' i st) = filter (\<lambda>c. id_of c \<noteq> i) (getCreditors st)
   \<and> i \<notin> set (map id_of (getCreditors (delete ''creditors'' i st)))
   \<and> getTransactionsForCreditor i (delete ''creditors'' i st) = []"
  by (auto simp: delete_clients delete_creditors getClients_def getCreditors_def
        getTransactionsForClient_def getTransactionsForCreditor_def)

section \<open>Total client debt\<close>



section \<open>Upsert\<close>




text \<open>
  Claim C10. \<open>save\<close> of a record whose id is set and is the id of no record of the
  collection leaves that collection, and every other one, as it reads, and still
  returns the record with its id.
\<close>

theorem save_unmatched_id:
  "truthy (id_of item) \<Longrightarrow> \<forall>x\<in>set (store_get type st). Some (id_of x) \<noteq> id_of item \<Longrightarrow>
   store_get type (fst (save type item newId st)) = store_get type st
   \<and> (\<forall>t. store_get t (fst (save type item newId st)) = store_get t st)
   \<and> snd (save type item newId st) = as_stored item
   \<and> Some (id_of (snd (save type item newId st))) = id_of item"
proof -
  assume t: "truthy (id_of item)" and a: "\<forall>x\<in>set (store_get type st). Some (id_of x) \<noteq> id_of item"
  then obtain i where i: "id_of item = Some i" "i \<noteq> []"
    by (cases "id_of item") auto
  from a i have "findIndex (\<lambda>x. id_of x = i) (store_get type st) = None"
    by (auto simp: findIndex_None)
  from save_missing[OF i this] i show ?thesis
    by (simp add: id_of_as_stored)
qed


theorem save_unmatched_id_witness:
  "truthy (id_of (Client (Some ''zz'') ''Ana'' ''555''))
   \<and> store_get ''clients'' [''clients'' \<mapsto> [Client ''k1'' ''Luz'' ''111'']]
       = [Client ''k1'' ''Luz'' ''111'']
   \<and> store_get ''clients''
        (fst (save ''clients'' (Client (Some ''zz'') ''Ana'' ''555'') ''k2''
                [''clients'' \<mapsto> [Client ''k1'' ''Luz'' ''111'']]))
       = [Client ''k1'' ''Luz'' ''111'']
   \<and> snd (save ''clients'' (Client (Some ''zz'') ''Ana'' ''555'') ''k2''
              [''clients'' \<mapsto> [Client ''k1'' ''Luz'' ''111'']])
       = Client ''zz'' ''Ana'' ''555''"
  using save_unmatched_id [of "Client (Some ''zz'') ''Ana'' ''555''" "''clients''"
                              "[''clients'' \<mapsto> [Client ''k1'' ''Luz'' ''111'']]" "''k2''"]
  by (simp add: store_get_def as_stored_def)

section \<open>Delete and the entity type\<close>

text \<open>
  Claim C9, as the code has it. \<open>delete\<close> does not look at whether its type is one of
  the seven known ones and has no error result: for a type outside them it stores,
  under that key, the records of the key without the one deleted, and returns. Only
  the static type \<open>EntityType\<close> keeps such a call out.
\<close>

theorem delete_unknown_type:
  "type \<notin> set entityTypes \<Longrightarrow>
   delete type eid st = st(type \<mapsto> filter (\<lambda>item. id_of item \<noteq> eid) (store_get type st))"
  by (auto simp: delete_def entityTypes_def Let_def store_set_def)

theorem delete_unknown_type_witness:
  "''widgets'' \<notin> set entityTypes \<and>
   delete ''widgets'' ''w1'' [''clients'' \<mapsto> [Client ''c1'' ''Ana'' ''555'']]
     = [''clients'' \<mapsto> [Client ''c1'' ''Ana'' ''555''], ''widgets'' \<mapsto> []]"
  using delete_unknown_type [of "''widgets''" "''w1''" "[''clients'' \<mapsto> [Client ''c1'' ''Ana'' ''555'']]"]
  by (simp add: entityTypes_def store_get_def)


text \<open>The claim as written, that such a call is rejected, fails: the call returns a
  store, with the unknown key written.\<close>

theorem delete_unknown_type_accepted:
  "''widgets'' \<notin> set entityTypes \<and> delete ''widgets'' ''w1'' Map.empty = [''widgets'' \<mapsto> []]"
  by (simp add: entityTypes_def delete_def store_get_def store_set_def)

section \<open>Total client debt when a transaction is added\<close>

text \<open>
  Claim C7, as the code has it. Adding a transaction (a \<open>save\<close> that creates it) with a
  positive amount never decreases \<open>getTotalClientDebt()\<close>; adding a transaction for a
  client whose balance is at most zero before and still at most zero after the
  addition leaves \<open>getTotalClientDebt()\<close> unchanged.
\<close>

theorem debt_after_adding:
  assumes "\<not> truthy i"
  shows "(0 < a \<longrightarrow>
            getTotalClientDebt st
              \<le> getTotalClientDebt (fst (save ''transactions'' (Transaction i c d a ds) newId st)))
       \<and> (getClientBalance c st \<le> 0
            \<and> getClientBalance c (fst (save ''transactions'' (Transaction i c d a ds) newId st)) \<le> 0 \<longrightarrow>
            getTotalClientDebt (fst (save ''transactions'' (Transaction i c d a ds) newId st))
              = getTotalClientDebt st)"
proof (intro conjI impI)
  let ?st' = "fst (save ''transactions'' (Transaction i c d a ds) newId st)"
  note bal = balance_after_add[OF assms, of _ c d a ds newId st]
  { assume pos: "0 < a"
    have "\<forall>k\<in>set (getClients st). getClientBalance (id_of k) st \<le> getClientBalance (id_of k) ?st'"
    proof
      fix k
      have "getClientBalance c st = round_double (getClientBalance c st)" by simp
      also have "\<dots> \<le> round_double (getClientBalance c st + a)"
        using pos by (intro round_double_mono) simp
      finally have "getClientBalance c st \<le> dadd (getClientBalance c st) a" by (simp add: dadd_def)
      then show "getClientBalance (id_of k) st \<le> getClientBalance (id_of k) ?st'"
        by (simp add: bal)
    qed
    then show "getTotalClientDebt st \<le> getTotalClientDebt ?st'"
      unfolding getTotalClientDebt_def clients_after_transaction_save Let_def
      using debt_mono[of 0 0 "getClients st" "\<lambda>k. getClientBalance (id_of k) st"
                        "\<lambda>k. getClientBalance (id_of k) ?st'"]
      by (simp add: Let_def) }
  { assume np: "getClientBalance c st \<le> 0 \<and> getClientBalance c ?st' \<le> 0"
    have "\<forall>k\<in>set (getClients st).
            max (getClientBalance (id_of k) ?st') 0 = max (getClientBalance (id_of k) st) 0"
    proof
      fix k
      show "max (getClientBalance (id_of k) ?st') 0 = max (getClientBalance (id_of k) st) 0"
      proof (cases "id_of k = c")
        case True
        with np show ?thesis by (simp add: max_def)
      next
        case False
        then show ?thesis by (simp add: bal)
      qed
    qed
    then show "getTotalClientDebt ?st' = getTotalClientDebt st"
      unfolding getTotalClientDebt_def clients_after_transaction_save Let_def
      using debt_cong[of "getClients st" "\<lambda>k. getClientBalance (id_of k) ?st'"
                        "\<lambda>k. getClientBalance (id_of k) st" 0]
      by (simp add: Let_def) }
qed

theorem debt_after_adding_witness:
  "getClientBalance ''c1''
        [''clients'' \<mapsto> [Client ''c1'' ''Ana'' ''555''],
         ''transactions'' \<mapsto> [Transaction ''t1'' ''c1'' ''2024-01-01'' (-500) ''abono'']] = - 500
   \<and> getClientBalance ''c1''
        (fst (save ''transactions'' (Transaction None ''c1'' ''2024-01-02'' 200 ''venta'') ''t2''
           [''clients'' \<mapsto> [Client ''c1'' ''Ana'' ''555''],
            ''transactions'' \<mapsto> [Transaction ''t1'' ''c1'' ''2024-01-01'' (-500) ''abono'']])) = - 300
   \<and> getTotalClientDebt [''clients'' \<mapsto> [Client ''c1'' ''Ana'' ''555''],
                         ''transactions'' \<mapsto> [Transaction ''t1'' ''c1'' ''2024-01-01'' (-500) ''abono'']] = 0
   \<and> getTotalClientDebt
        (fst (save ''transactions'' (Transaction None ''c1'' ''2024-01-02'' 200 ''venta'') ''t2''
           [''clients'' \<mapsto> [Client ''c1'' ''Ana'' ''555''],
            ''transactions'' \<mapsto> [Transaction ''t1'' ''c1'' ''2024-01-01'' (-500) ''abono'']])) = 0"
proof -
  let ?st = "[''clients'' \<mapsto> [Client ''c1'' ''Ana'' ''555''],
              ''transactions'' \<mapsto> [Transaction ''t1'' ''c1'' ''2024-01-01'' (-500) ''abono'']]"
  let ?st' = "fst (save ''transactions'' (Transaction None ''c1'' ''2024-01-02'' 200 ''venta'') ''t2'' ?st)"
  have h: "\<not> truthy None" by simp
  have b: "getClientBalance ''c1'' ?st = - 500" "getClientBalance ''c1'' ?st' = - 300"
    by code_simp+
  have d: "getTotalClientDebt ?st = 0" by code_simp
  from debt_after_adding [OF h, of 200 ?st "''c1''" "''2024-01-02''" "''venta''" "''t2''"]
  have "getClientBalance ''c1'' ?st \<le> 0 \<and> getClientBalance ''c1'' ?st' \<le> 0 \<longrightarrow>
          getTotalClientDebt ?st' = getTotalClientDebt ?st"
    by blast
  with b d have "getTotalClientDebt ?st' = 0" by simp
  with b d show ?thesis by simp
qed

text \<open>The claim as written fails for a client whose balance is at most zero and who
  is charged more than the credit: a client with no transactions has balance 0 and
  total debt 0, and a charge of 50000 makes the total debt 50000.\<close>

theorem debt_changes_at_zero_balance:
  "getClientBalance ''c1'' [''clients'' \<mapsto> [Client ''c1'' ''Ana'' ''555'']] \<le> 0
   \<and> getTotalClientDebt [''clients'' \<mapsto> [Client ''c1'' ''Ana'' ''555'']] = 0
   \<and> getTotalClientDebt
        (fst (save ''transactions'' (Transaction None ''c1'' ''2024-01-01'' 50000 ''prestamo'') ''t1''
           [''clients'' \<mapsto> [Client ''c1'' ''Ana'' ''555'']])) = 50000"
  by code_simp

section \<open>Expenses paid to a creditor\<close>

text \<open>
  Claim C4. Submitting the form of a new expense with a creditor chosen appends one
  creditor transaction, of that creditor, with amount \<open>-|amount|\<close> (and appends the
  expense itself); submitting the form of an existing expense leaves the creditor
  transactions as they are, whatever the form holds.
\<close>

theorem expense_creditor_sync:
  "(fd_creditorId fd \<noteq> [] \<longrightarrow>
      store_get ''creditorTransactions'' (expenseFormSubmit None fd newId1 newId2 st) =
        store_get ''creditorTransactions'' st @
          [CreditorTransaction newId2 (fd_creditorId fd) (fd_date fd) (- \<bar>fd_amount fd\<bar>)
             (''Pago registrado desde gastos: '' @ fd_description fd)])
   \<and> (fd_creditorId fd \<noteq> [] \<and> fd_id fd = [] \<longrightarrow>
        store_get ''expenses'' (expenseFormSubmit None fd newId1 newId2 st) =
          store_get ''expenses'' st @
            [Expense newId1 (fd_date fd) (fd_amount fd) (fd_category fd) (fd_description fd)
               (Some (fd_creditorId fd))])
   \<and> store_get ''creditorTransactions'' (expenseFormSubmit (Some e) fd' newId1' newId2' st') =
       store_get ''creditorTransactions'' st'"
  by (simp add: expenseFormSubmit_def Let_def or_undefined_def save_create with_id_def
        save_def split: option.splits)

theorem expense_creditor_sync_witness:
  "expenseFormSubmit None
      \<lparr>fd_id = [], fd_clientId = [], fd_productId = [], fd_creditorId = ''k1'',
       fd_quantity = None, fd_amount = 100, fd_category = ''Mercancia'',
       fd_description = ''factura 12'', fd_date = ''2024-03-05''\<rparr> ''e1'' ''ct1''
      [''creditors'' \<mapsto> [Creditor ''k1'' ''Proveedor'' ''300'']]
    = [''creditors'' \<mapsto> [Creditor ''k1'' ''Proveedor'' ''300''],
       ''expenses'' \<mapsto> [Expense ''e1'' ''2024-03-05'' 100 ''Mercancia'' ''factura 12'' (Some ''k1'')],
       ''creditorTransactions'' \<mapsto>
          [CreditorTransaction ''ct1'' ''k1'' ''2024-03-05'' (-100)
             ''Pago registrado desde gastos: factura 12'']]
   \<and> store_get ''creditorTransactions''
        (expenseFormSubmit None
          \<lparr>fd_id = [], fd_clientId = [], fd_productId = [], fd_creditorId = ''k1'',
           fd_quantity = None, fd_amount = 100, fd_category = ''Mercancia'',
           fd_description = ''factura 12'', fd_date = ''2024-03-05''\<rparr> ''e1'' ''ct1''
          [''creditors'' \<mapsto> [Creditor ''k1'' ''Proveedor'' ''300'']])
      = [CreditorTransaction ''ct1'' ''k1'' ''2024-03-05'' (-100)
             ''Pago registrado desde gastos: factura 12'']
   \<and> store_get ''creditorTransactions''
        (expenseFormSubmit
          (Some (Expense ''e1'' ''2024-03-05'' 100 ''Mercancia'' ''factura 12'' (Some ''k1'')))
          \<lparr>fd_id = ''e1'', fd_clientId = [], fd_productId = [], fd_creditorId = ''k1'',
           fd_quantity = None, fd_amount = 150, fd_category = ''Mercancia'',
           fd_description = ''factura 12'', fd_date = ''2024-03-05''\<rparr> ''e2'' ''ct2''
          [''creditors'' \<mapsto> [Creditor ''k1'' ''Proveedor'' ''300''],
           ''expenses'' \<mapsto> [Expense ''e1'' ''2024-03-05'' 100 ''Mercancia'' ''factura 12'' (Some ''k1'')],
           ''creditorTransactions'' \<mapsto>
              [CreditorTransaction ''ct1'' ''k1'' ''2024-03-05'' (-100)
                 ''Pago registrado desde gastos: factura 12'']])
      = [CreditorTransaction ''ct1'' ''k1'' ''2024-03-05'' (-100)
             ''Pago registrado desde gastos: factura 12'']"
  using expense_creditor_sync [of
      "\<lparr>fd_id = [], fd_clientId = [], fd_productId = [], fd_creditorId = ''k1'',
       fd_quantity = None, fd_amount = 100, fd_category = ''Mercancia'',
       fd_description = ''factura 12'', fd_date = ''2024-03-05''\<rparr>" "''e1''" "''ct1''"
      "[''creditors'' \<mapsto> [Creditor ''k1'' ''Proveedor'' ''300'']]"]
  by (simp add: expenseFormSubmit_def Let_def or_undefined_def save_def with_id_def
        as_stored_def store_get_def store_set_def fun_upd_twist)

section \<open>Stock received with a creditor transaction\<close>




section \<open>Sales from the inventory\<close>




end
